theory Spec2Isabelle
  imports Main "HOL-Library.Word"
begin

text \<open>
  The worker function of the repository (\<^verbatim>\<open>handler\<close> and \<^verbatim>\<open>processMessage\<close>
  of the queue-consuming Lambda) and the construction of its logger as HOL functions,
  together with the part of the JavaScript runtime their results depend on:
  \<^verbatim>\<open>JSON.parse\<close>, numbers as doubles, property access, truthiness, \<^verbatim>\<open>typeof\<close> and
  the conversion of a value to a string.
  Exceptions are values of the type \<open>error\<close>; a computation that logs and may throw is a
  function from the log so far to a result and the extended log.
\<close>

section \<open>JavaScript strings and JSON values\<close>

text \<open>
  A JavaScript string is a sequence of 16-bit code units. \<open>js\<close> embeds an ASCII literal.
  A number is a double: \<open>Finite neg f q\<close> is the value \<open>f * 2 ^ q\<close> with the sign \<open>neg\<close>,
  \<open>Infinite neg\<close> an infinity. An object is the list of its members in the order of the
  text, duplicates included; a lookup takes the last member of a name.
\<close>

type_synonym jsstring = "16 word list"

definition js :: "string \<Rightarrow> jsstring" where
  "js s = map of_char s"

datatype error = SyntaxError | TypeError | Error jsstring

datatype double = Finite bool int int | Infinite bool

text \<open>
  The double nearest to the decimal \<open>m * 10 ^ e\<close>, ties to the even significand:
  the significand has at most 53 bits, the exponent \<open>q\<close> is at least \<open>-1074\<close>, and a value
  that rounds beyond \<open>(2 ^ 53 - 1) * 2 ^ 971\<close> is an infinity.
\<close>

function bitlen :: "int \<Rightarrow> int" where
  "bitlen n = (if n \<le> 0 then 0 else 1 + bitlen (n div 2))"
  by pat_completeness auto
termination
  by (relation "measure nat") auto

definition round_double :: "bool \<Rightarrow> int \<Rightarrow> int \<Rightarrow> double" where
  "round_double neg m e =
     (if m = 0 then Finite neg 0 0
      else
        (let N = (if 0 \<le> e then m * 10 ^ nat e else m);
             D = (if 0 \<le> e then 1 else 10 ^ nat (- e));
             q1 = max (bitlen N - bitlen D - 53) (- 1074);
             f1 = (if q1 < 0 then N * 2 ^ nat (- q1) div D else N div (D * 2 ^ nat q1));
             q = (if 2 ^ 53 \<le> f1 then q1 + 1 else q1);
             num = (if q < 0 then N * 2 ^ nat (- q) else N);
             den = (if q < 0 then D else D * 2 ^ nat q);
             f = num div den;
             r = num mod den;
             f' = (if den < 2 * r \<or> (2 * r = den \<and> odd f) then f + 1 else f);
             f'' = (if f' = 2 ^ 53 then 2 ^ 52 else f');
             q' = (if f' = 2 ^ 53 then q + 1 else q)
         in if f'' = 0 then Finite neg 0 0
            else if 971 < q' then Infinite neg
            else Finite neg f'' q'))"

datatype json =
    JNull
  | JBool bool
  | JNumber double
  | JString jsstring
  | JArray "json list"
  | JObject "(jsstring \<times> json) list"

text \<open>
  \<^verbatim>\<open>JSON.parse\<close> follows the JSON grammar of ECMA-404: the text is cut into tokens
  (white space is space, tab, line feed and carriage return), and the token list is read
  with an explicit stack of the arrays and objects that are still open. Every rejection is
  a \<open>SyntaxError\<close>. Limits of an engine on nesting depth or text size are not modelled.
\<close>

datatype token =
    TLBrace | TRBrace | TLBracket | TRBracket | TColon | TComma
  | TString jsstring | TNumber double | TTrue | TFalse | TNull

definition is_digit :: "16 word \<Rightarrow> bool" where
  "is_digit c = (0x30 \<le> c \<and> c \<le> 0x39)"

definition hex_digit :: "16 word \<Rightarrow> 16 word option" where
  "hex_digit c =
     (if 0x30 \<le> c \<and> c \<le> 0x39 then Some (c - 0x30)
      else if 0x41 \<le> c \<and> c \<le> 0x46 then Some (c - 0x37)
      else if 0x61 \<le> c \<and> c \<le> 0x66 then Some (c - 0x57)
      else None)"

definition hex4 :: "16 word \<Rightarrow> 16 word \<Rightarrow> 16 word \<Rightarrow> 16 word \<Rightarrow> 16 word option" where
  "hex4 a b c d =
     (case (hex_digit a, hex_digit b, hex_digit c, hex_digit d) of
        (Some x, Some y, Some z, Some w) \<Rightarrow> Some (4096 * x + 256 * y + 16 * z + w)
      | _ \<Rightarrow> None)"

definition escape_char :: "16 word \<Rightarrow> 16 word option" where
  "escape_char e =
     (if e = 0x22 then Some 0x22
      else if e = 0x5C then Some 0x5C
      else if e = 0x2F then Some 0x2F
      else if e = 0x62 then Some 0x08
      else if e = 0x66 then Some 0x0C
      else if e = 0x6E then Some 0x0A
      else if e = 0x72 then Some 0x0D
      else if e = 0x74 then Some 0x09
      else None)"

text \<open>
  The characters of a string token after its opening quote: \<open>lex_string acc cs\<close> returns
  the decoded string and the text after the closing quote. Control characters below
  U+0020 must be escaped; the escapes are the eight two-character ones and \<open>\u\<close> with
  four hexadecimal digits.
\<close>

fun lex_string :: "jsstring \<Rightarrow> jsstring \<Rightarrow> (jsstring \<times> jsstring) option" where
  "lex_string acc [] = None"
| "lex_string acc (c # cs) =
     (if c = 0x22 then Some (rev acc, cs)
      else if c = 0x5C then
        (case cs of
           [] \<Rightarrow> None
         | e # cs' \<Rightarrow>
             if e = 0x75 then
               (case cs' of
                  h1 # h2 # h3 # h4 # rest \<Rightarrow>
                    (case hex4 h1 h2 h3 h4 of
                       None \<Rightarrow> None
                     | Some u \<Rightarrow> lex_string (u # acc) rest)
                | _ \<Rightarrow> None)
             else
               (case escape_char e of
                  None \<Rightarrow> None
                | Some x \<Rightarrow> lex_string (x # acc) cs'))
      else if c < 0x20 then None
      else lex_string (c # acc) cs)"

definition digits_value :: "jsstring \<Rightarrow> int" where
  "digits_value ds = foldl (\<lambda>n c. 10 * n + uint (c - 0x30)) 0 ds"

text \<open>
  A number token: an optional minus, an integer part without superfluous leading zero, an
  optional fraction and an optional exponent. The text denotes \<open>m * 10 ^ e\<close> with \<open>m\<close> the
  digits of integer part and fraction; the token is the double nearest to it.
\<close>

definition lex_int :: "jsstring \<Rightarrow> (jsstring \<times> jsstring) option" where
  "lex_int cs =
     (let ip = takeWhile is_digit cs
      in if ip = [] \<or> (hd ip = 0x30 \<and> length ip > 1) then None
         else Some (ip, dropWhile is_digit cs))"

definition lex_frac :: "jsstring \<Rightarrow> (jsstring \<times> jsstring) option" where
  "lex_frac cs =
     (if cs \<noteq> [] \<and> hd cs = 0x2E then
        (let fp = takeWhile is_digit (tl cs)
         in if fp = [] then None else Some (fp, dropWhile is_digit (tl cs)))
      else Some ([], cs))"

definition lex_exp :: "jsstring \<Rightarrow> (int \<times> jsstring) option" where
  "lex_exp cs =
     (if cs \<noteq> [] \<and> (hd cs = 0x65 \<or> hd cs = 0x45) then
        (let cs1 = tl cs;
             signed = (cs1 \<noteq> [] \<and> (hd cs1 = 0x2D \<or> hd cs1 = 0x2B));
             neg = (cs1 \<noteq> [] \<and> hd cs1 = 0x2D);
             cs2 = (if signed then tl cs1 else cs1);
             ep = takeWhile is_digit cs2
         in if ep = [] then None
            else Some (if neg then - digits_value ep else digits_value ep,
                       dropWhile is_digit cs2))
      else Some (0, cs))"

definition lex_number :: "jsstring \<Rightarrow> (token \<times> jsstring) option" where
  "lex_number cs =
     (let neg = (cs \<noteq> [] \<and> hd cs = 0x2D)
      in case lex_int (if neg then tl cs else cs) of
           None \<Rightarrow> None
         | Some (ip, cs2) \<Rightarrow>
             (case lex_frac cs2 of
                None \<Rightarrow> None
              | Some (fp, cs3) \<Rightarrow>
                  (case lex_exp cs3 of
                     None \<Rightarrow> None
                   | Some (x, cs4) \<Rightarrow>
                       Some (TNumber (round_double neg (digits_value (ip @ fp))
                                        (x - int (length fp))), cs4))))"

function lex :: "jsstring \<Rightarrow> token list option" where
  "lex [] = Some []"
| "lex (c # cs) =
     (if c = 0x20 \<or> c = 0x09 \<or> c = 0x0A \<or> c = 0x0D then lex cs
      else if c = 0x7B then map_option (Cons TLBrace) (lex cs)
      else if c = 0x7D then map_option (Cons TRBrace) (lex cs)
      else if c = 0x5B then map_option (Cons TLBracket) (lex cs)
      else if c = 0x5D then map_option (Cons TRBracket) (lex cs)
      else if c = 0x3A then map_option (Cons TColon) (lex cs)
      else if c = 0x2C then map_option (Cons TComma) (lex cs)
      else if c = 0x22 then
        (case lex_string [] cs of
           None \<Rightarrow> None
         | Some (s, rest) \<Rightarrow> map_option (Cons (TString s)) (lex rest))
      else if c = 0x2D \<or> is_digit c then
        (case lex_number (c # cs) of
           None \<Rightarrow> None
         | Some (t, rest) \<Rightarrow> map_option (Cons t) (lex rest))
      else if take 4 (c # cs) = js ''true'' then map_option (Cons TTrue) (lex (drop 3 cs))
      else if take 5 (c # cs) = js ''false'' then map_option (Cons TFalse) (lex (drop 4 cs))
      else if take 4 (c # cs) = js ''null'' then map_option (Cons TNull) (lex (drop 3 cs))
      else None)"
  by pat_completeness auto
termination
proof -
  have string_shorter: "length rest < length cs"
    if "lex_string acc cs = Some (s, rest)" for acc cs s rest
    using that
  proof (induction acc cs rule: lex_string.induct)
    case (1 acc)
    then show ?case by simp
  next
    case (2 acc c cs)
    show ?case
    proof (cases "c = 0x22")
      case True
      with "2.prems" show ?thesis by simp
    next
      case quote: False
      show ?thesis
      proof (cases "c = 0x5C")
        case False
        with quote "2.prems" "2.IH"(3) show ?thesis
          by (fastforce split: if_splits)
      next
        case True
        with quote "2.prems" obtain e cs' where cs: "cs = e # cs'"
          by (cases cs) auto
        show ?thesis
        proof (cases "e = 0x75")
          case False
          with quote True cs "2.prems" obtain x where
            "escape_char e = Some x" "lex_string (x # acc) cs' = Some (s, rest)"
            by (auto split: option.splits)
          with "2.IH"(2) [OF quote True cs False] cs show ?thesis
            by fastforce
        next
          case u: True
          with quote True cs "2.prems" obtain h1 h2 h3 h4 r w where
            cs': "cs' = h1 # h2 # h3 # h4 # r" and h: "hex4 h1 h2 h3 h4 = Some w"
            and l: "lex_string (w # acc) r = Some (s, rest)"
            by (auto split: list.splits option.splits)
          from "2.IH"(1) [OF quote True cs u cs' _ _ _ h l] cs cs' show ?thesis
            by fastforce
        qed
      qed
    qed
  qed
  have tl_le: "length (tl xs) \<le> length xs" for xs :: jsstring
    by (cases xs) auto
  have drop_shorter: "length (dropWhile P xs) < length xs"
    if "takeWhile P xs \<noteq> []" for P and xs :: jsstring
    using that by (cases xs) (auto simp: le_imp_less_Suc length_dropWhile_le split: if_splits)
  have drop_tl_le: "length (dropWhile P (tl xs)) \<le> length xs" for P and xs :: jsstring
    by (rule order_trans [OF length_dropWhile_le tl_le])
  have int_shorter: "length rest < length cs"
    if "lex_int cs = Some (ip, rest)" for cs ip rest
    using that unfolding lex_int_def Let_def by (auto split: if_splits simp: drop_shorter)
  have frac_le: "length rest \<le> length cs"
    if "lex_frac cs = Some (fp, rest)" for cs fp rest
    using that unfolding lex_frac_def Let_def by (auto split: if_splits simp: drop_tl_le)
  have exp_le: "length rest \<le> length cs"
    if a: "lex_exp cs = Some (x, rest)" for cs x rest
  proof (cases "cs \<noteq> [] \<and> (hd cs = 0x65 \<or> hd cs = 0x45)")
    case False
    with a show ?thesis by (simp add: lex_exp_def)
  next
    case True
    define cs1 where "cs1 = tl cs"
    define cs2 where
      "cs2 = (if cs1 \<noteq> [] \<and> (hd cs1 = 0x2D \<or> hd cs1 = 0x2B) then tl cs1 else cs1)"
    from a True have "rest = dropWhile is_digit cs2"
      unfolding lex_exp_def Let_def cs1_def cs2_def by (auto split: if_splits)
    moreover have "length cs2 \<le> length cs1"
      unfolding cs2_def by (simp add: tl_le)
    moreover have "length cs1 \<le> length cs"
      unfolding cs1_def by (simp add: tl_le)
    moreover have "length (dropWhile is_digit cs2) \<le> length cs2"
      by (rule length_dropWhile_le)
    ultimately show ?thesis by simp
  qed
  have number_shorter: "length rest < length cs"
    if a: "lex_number cs = Some (t, rest)" for cs t rest
  proof -
    from a obtain ip cs2 fp cs3 x where
      i: "lex_int (if cs \<noteq> [] \<and> hd cs = 0x2D then tl cs else cs) = Some (ip, cs2)"
      and f: "lex_frac cs2 = Some (fp, cs3)" and e: "lex_exp cs3 = Some (x, rest)"
      unfolding lex_number_def Let_def by (auto split: option.splits)
    have "length (if cs \<noteq> [] \<and> hd cs = 0x2D then tl cs else cs) \<le> length cs"
      by (simp add: tl_le)
    with int_shorter [OF i] frac_le [OF f] exp_le [OF e]
    show ?thesis by simp
  qed
  show ?thesis
    by (relation "measure length")
       (auto dest: string_shorter number_shorter simp: less_Suc_eq_le)
qed

text \<open>
  \<open>parse_value st ts\<close> expects a value at the head of \<open>ts\<close>; \<open>parse_after v st ts\<close> has
  just read the value \<open>v\<close> and continues in the innermost open array or object of \<open>st\<close>
  (a comma or the closing bracket), or expects the end of the text when nothing is open.
\<close>

datatype frame = InArray "json list" | InObject "(jsstring \<times> json) list" jsstring

fun parse_value :: "frame list \<Rightarrow> token list \<Rightarrow> error + json"
  and parse_after :: "json \<Rightarrow> frame list \<Rightarrow> token list \<Rightarrow> error + json" where
  "parse_value st [] = Inl SyntaxError"
| "parse_value st (t # ts) =
     (case t of
        TNull \<Rightarrow> parse_after JNull st ts
      | TTrue \<Rightarrow> parse_after (JBool True) st ts
      | TFalse \<Rightarrow> parse_after (JBool False) st ts
      | TNumber d \<Rightarrow> parse_after (JNumber d) st ts
      | TString s \<Rightarrow> parse_after (JString s) st ts
      | TLBracket \<Rightarrow>
          (case ts of
             TRBracket # ts' \<Rightarrow> parse_after (JArray []) st ts'
           | _ \<Rightarrow> parse_value (InArray [] # st) ts)
      | TLBrace \<Rightarrow>
          (case ts of
             TRBrace # ts' \<Rightarrow> parse_after (JObject []) st ts'
           | TString k # TColon # ts' \<Rightarrow> parse_value (InObject [] k # st) ts'
           | _ \<Rightarrow> Inl SyntaxError)
      | _ \<Rightarrow> Inl SyntaxError)"
| "parse_after v [] ts = (if ts = [] then Inr v else Inl SyntaxError)"
| "parse_after v (InArray acc # st) ts =
     (case ts of
        TComma # ts' \<Rightarrow> parse_value (InArray (v # acc) # st) ts'
      | TRBracket # ts' \<Rightarrow> parse_after (JArray (rev (v # acc))) st ts'
      | _ \<Rightarrow> Inl SyntaxError)"
| "parse_after v (InObject acc k # st) ts =
     (case ts of
        TComma # TString k' # TColon # ts' \<Rightarrow> parse_value (InObject ((k, v) # acc) k' # st) ts'
      | TRBrace # ts' \<Rightarrow> parse_after (JObject (rev ((k, v) # acc))) st ts'
      | _ \<Rightarrow> Inl SyntaxError)"

definition JSON_parse :: "jsstring \<Rightarrow> error + json" where
  "JSON_parse text =
     (case lex text of
        None \<Rightarrow> Inl SyntaxError
      | Some ts \<Rightarrow> parse_value [] ts)"


section \<open>Property access, truthiness, typeof and string conversion\<close>

text \<open>
  \<open>get_property v name\<close> is the expression \<^verbatim>\<open>v.name\<close> for a value produced by
  \<^verbatim>\<open>JSON.parse\<close> and a name that none of the built-in prototypes defines (the worker
  reads \<^verbatim>\<open>Message\<close> and \<^verbatim>\<open>shouldFail\<close>): a \<open>TypeError\<close> on null, the own
  property of an object, and \<open>undefined\<close> (here \<open>None\<close>) otherwise.
\<close>

definition get_property :: "json \<Rightarrow> jsstring \<Rightarrow> error + json option" where
  "get_property v name =
     (case v of
        JNull \<Rightarrow> Inl TypeError
      | JObject members \<Rightarrow> Inr (map_of (rev members) name)
      | _ \<Rightarrow> Inr None)"

fun truthy :: "json \<Rightarrow> bool" where
  "truthy JNull = False"
| "truthy (JBool b) = b"
| "truthy (JNumber (Finite neg f q)) = (f \<noteq> 0)"
| "truthy (JNumber (Infinite neg)) = True"
| "truthy (JString s) = (s \<noteq> [])"
| "truthy (JArray xs) = True"
| "truthy (JObject members) = True"

fun truthy_property :: "json option \<Rightarrow> bool" where
  "truthy_property None = False"
| "truthy_property (Some v) = truthy v"

fun typeof :: "json \<Rightarrow> string" where
  "typeof JNull = ''object''"
| "typeof (JBool b) = ''boolean''"
| "typeof (JNumber d) = ''number''"
| "typeof (JString s) = ''string''"
| "typeof (JArray xs) = ''object''"
| "typeof (JObject members) = ''object''"

text \<open>
  \<open>Number_toString\<close> writes a number as \<^verbatim>\<open>String(n)\<close> does. For a finite value other
  than zero it takes the integers \<open>s\<close> and \<open>n\<close> with the fewest digits \<open>k\<close> of \<open>s\<close> such that
  \<open>s * 10 ^ (n - k)\<close> rounds to the number, of these the \<open>s\<close> nearest to it (the even one
  of two equally near): \<open>digits_candidate\<close> tries the two \<open>k\<close>-digit decimals around the
  value, \<open>shortest_digits\<close> the lengths from one up. Seventeen digits identify every
  double, so the search ends before its last case. The digits are then laid out with or
  without an exponent, by the size of \<open>n\<close>.
  \<open>ToString\<close> of an array joins the strings of its elements with commas, null giving the
  empty string; of an object it is \<^verbatim>\<open>[object Object]\<close>, unless the object has an own
  \<^verbatim>\<open>toString\<close> member, which is never callable and leaves no way to a primitive.
\<close>

function decimal :: "int \<Rightarrow> jsstring" where
  "decimal n =
     (if n < 10 then [0x30 + of_int n] else decimal (n div 10) @ [0x30 + of_int (n mod 10)])"
  by pat_completeness auto
termination
  by (relation "measure nat") auto

definition same_value :: "double \<Rightarrow> int \<Rightarrow> int \<Rightarrow> bool" where
  "same_value d f q =
     (case d of
        Infinite neg \<Rightarrow> False
      | Finite neg f' q' \<Rightarrow>
          f' * 2 ^ nat (q' - min q q') = f * 2 ^ nat (q - min q q'))"

definition decimal_exponent :: "int \<Rightarrow> int \<Rightarrow> int" where
  "decimal_exponent num den =
     (if den \<le> num then int (length (decimal (num div den)))
      else 1 - int (length (decimal ((den + num - 1) div num - 1))))"

definition digits_candidate :: "int \<Rightarrow> int \<Rightarrow> int \<Rightarrow> nat \<Rightarrow> (int \<times> int) option" where
  "digits_candidate f q n k =
     (let num = (if q < 0 then f else f * 2 ^ nat q);
          den = (if q < 0 then 2 ^ nat (- q) else 1);
          p = n - int k;
          a = (if p < 0 then num * 10 ^ nat (- p) else num);
          b = (if p < 0 then den else den * 10 ^ nat p);
          lo = a div b;
          r = a mod b;
          hi = lo + 1;
          ok_lo = same_value (round_double False lo p) f q;
          ok_hi = (r \<noteq> 0 \<and> same_value (round_double False hi p) f q);
          s = (if ok_lo \<and> ok_hi then
                 (if 2 * r < b then lo else if b < 2 * r then hi
                  else if even lo then lo else hi)
               else if ok_lo then lo else hi)
      in if ok_lo \<or> ok_hi then Some (if s = 10 ^ k then (10 ^ (k - 1), n + 1) else (s, n))
         else None)"

fun shortest_digits :: "int \<Rightarrow> int \<Rightarrow> int \<Rightarrow> nat \<Rightarrow> nat \<Rightarrow> int \<times> int" where
  "shortest_digits f q n 0 k =
     (case digits_candidate f q n k of
        Some c \<Rightarrow> c
      | None \<Rightarrow> ((if q < 0 then f * 10 ^ nat (- (n - int k)) div 2 ^ nat (- q)
                  else f * 2 ^ nat q div 10 ^ nat (n - int k)), n))"
| "shortest_digits f q n (Suc more) k =
     (case digits_candidate f q n k of
        Some c \<Rightarrow> c
      | None \<Rightarrow> shortest_digits f q n more (Suc k))"

definition Number_toString :: "double \<Rightarrow> jsstring" where
  "Number_toString d =
     (case d of
        Infinite neg \<Rightarrow> (if neg then js ''-Infinity'' else js ''Infinity'')
      | Finite neg f q \<Rightarrow>
          if f = 0 then js ''0''
          else
            (let (s, n) =
                   shortest_digits f q
                     (decimal_exponent (if q < 0 then f else f * 2 ^ nat q)
                                       (if q < 0 then 2 ^ nat (- q) else 1))
                     16 1;
                 digits = decimal s;
                 k = int (length digits);
                 x = n - 1;
                 exponent = 0x65 # (if x < 0 then 0x2D else 0x2B) # decimal \<bar>x\<bar>;
                 str =
                   (if k \<le> n \<and> n \<le> 21 then digits @ replicate (nat (n - k)) 0x30
                    else if 0 < n \<and> n \<le> 21 then take (nat n) digits @ 0x2E # drop (nat n) digits
                    else if - 6 < n \<and> n \<le> 0 then js ''0.'' @ replicate (nat (- n)) 0x30 @ digits
                    else if k = 1 then digits @ exponent
                    else hd digits # 0x2E # tl digits @ exponent)
             in if neg then 0x2D # str else str))"

fun ToString :: "json \<Rightarrow> error + jsstring"
  and join_elements :: "json list \<Rightarrow> error + jsstring" where
  "ToString JNull = Inr (js ''null'')"
| "ToString (JBool b) = Inr (if b then js ''true'' else js ''false'')"
| "ToString (JNumber d) = Inr (Number_toString d)"
| "ToString (JString s) = Inr s"
| "ToString (JArray xs) = join_elements xs"
| "ToString (JObject members) =
     (if map_of (rev members) (js ''toString'') = None then Inr (js ''[object Object]'')
      else Inl TypeError)"
| "join_elements [] = Inr []"
| "join_elements (x # xs) =
     (case (if x = JNull then Inr [] else ToString x) of
        Inl err \<Rightarrow> Inl err
      | Inr s \<Rightarrow>
          if xs = [] then Inr s
          else (case join_elements xs of
                  Inl err \<Rightarrow> Inl err
                | Inr t \<Rightarrow> Inr (s @ 0x2C # t)))"

text \<open>
  The envelope step of the handler,
  \<^verbatim>\<open>let message = messageBody; if (messageBody.Message) { message = JSON.parse(messageBody.Message); }\<close>,
  as a function of the parsed body. \<^verbatim>\<open>JSON.parse\<close> converts its argument to a string
  first.
\<close>

definition unwrap :: "json \<Rightarrow> error + json" where
  "unwrap messageBody =
     (case get_property messageBody (js ''Message'') of
        Inl err \<Rightarrow> Inl err
      | Inr None \<Rightarrow> Inr messageBody
      | Inr (Some m) \<Rightarrow>
          if truthy m then
            (case ToString m of
               Inl err \<Rightarrow> Inl err
             | Inr text \<Rightarrow> JSON_parse text)
          else Inr messageBody)"

text \<open>
  The JSON text of a string of printable ASCII characters, as \<^verbatim>\<open>JSON.stringify\<close>
  writes it; the test events of the repository build their bodies with it.
\<close>

definition quoted :: "jsstring \<Rightarrow> jsstring" where
  "quoted s = 0x22 # concat (map (\<lambda>c. if c = 0x22 \<or> c = 0x5C then [0x5C, c] else [c]) s) @ [0x22]"

section \<open>The queue event, the response and the logger\<close>

text \<open>
  The records of the event carry, besides \<open>messageId\<close> and \<open>body\<close>, the receipt handle and
  the delivery metadata. The logger is a collaborator the handler only calls: a log entry
  records one call (the bindings of the logger, the level of the call, the merged object
  and the message), and the log is the sequence of calls made so far, whatever the
  logger's own level later lets through. The logger that the module of the handler
  imports is the first argument of \<open>handler\<close>; \<open>module_logger\<close> below is its construction
  in \<^verbatim>\<open>utils/logger\<close>, and \<open>root_logger\<close> is a logger of the default level.
\<close>

record sqs_attributes =
  ApproximateReceiveCount :: jsstring
  SentTimestamp :: jsstring
  SenderId :: jsstring
  ApproximateFirstReceiveTimestamp :: jsstring

record sqs_record =
  messageId :: jsstring
  receiptHandle :: jsstring
  body :: jsstring
  attributes :: sqs_attributes
  messageAttributes :: "(jsstring \<times> jsstring) list"
  md5OfBody :: jsstring
  eventSource :: jsstring
  eventSourceARN :: jsstring
  awsRegion :: jsstring

record sqs_event =
  Records :: "sqs_record list"

record lambda_context =
  awsRequestId :: jsstring
  functionName :: jsstring

record sqs_batch_item_failure =
  itemIdentifier :: jsstring

record sqs_batch_response =
  batchItemFailures :: "sqs_batch_item_failure list"

record process_env =
  QUEUE_URL :: "jsstring option"
  TOPIC_ARN :: "jsstring option"
  DLQ_URL :: "jsstring option"
  ENVIRONMENT :: "jsstring option"
  LOG_LEVEL :: "jsstring option"

datatype log_level = LevelInfo | LevelError

datatype field_value =
    FString "jsstring option"
  | FJson json
  | FError error
  | FEvent sqs_event

record log_entry =
  bindings :: "(string \<times> jsstring) list"
  level :: log_level
  obj :: "(string \<times> field_value) list"
  msg :: string

record logger =
  logger_level :: jsstring
  logger_bindings :: "(string \<times> jsstring) list"

text \<open>
  A computation takes the log so far and returns a thrown error or a value, with the log
  extended. \<open>try_catch\<close> runs the handler on a thrown error, from the log at the throw.
\<close>

type_synonym 'a prog = "log_entry list \<Rightarrow> (error + 'a) \<times> log_entry list"

definition prog_return :: "'a \<Rightarrow> 'a prog" where
  "prog_return x = (\<lambda>log. (Inr x, log))"

definition prog_throw :: "error \<Rightarrow> 'a prog" where
  "prog_throw err = (\<lambda>log. (Inl err, log))"

definition prog_lift :: "error + 'a \<Rightarrow> 'a prog" where
  "prog_lift r = (\<lambda>log. (r, log))"

definition prog_bind :: "'a prog \<Rightarrow> ('a \<Rightarrow> 'b prog) \<Rightarrow> 'b prog" where
  "prog_bind p f =
     (\<lambda>log. case p log of
              (Inl err, log') \<Rightarrow> (Inl err, log')
            | (Inr x, log') \<Rightarrow> f x log')"

definition try_catch :: "'a prog \<Rightarrow> (error \<Rightarrow> 'a prog) \<Rightarrow> 'a prog" where
  "try_catch p h =
     (\<lambda>log. case p log of
              (Inl err, log') \<Rightarrow> h err log'
            | (Inr x, log') \<Rightarrow> (Inr x, log'))"

definition root_logger :: logger where
  "root_logger = \<lparr>logger_level = js ''info'', logger_bindings = []\<rparr>"

definition logger_child :: "logger \<Rightarrow> (string \<times> jsstring) list \<Rightarrow> logger" where
  "logger_child lg bs = lg\<lparr>logger_bindings := logger_bindings lg @ bs\<rparr>"

definition logger_info :: "logger \<Rightarrow> (string \<times> field_value) list \<Rightarrow> string \<Rightarrow> unit prog" where
  "logger_info lg fs m =
     (\<lambda>log. (Inr (), log @ [\<lparr>bindings = logger_bindings lg, level = LevelInfo, obj = fs, msg = m\<rparr>]))"

definition logger_error :: "logger \<Rightarrow> (string \<times> field_value) list \<Rightarrow> string \<Rightarrow> unit prog" where
  "logger_error lg fs m =
     (\<lambda>log. (Inr (), log @ [\<lparr>bindings = logger_bindings lg, level = LevelError, obj = fs, msg = m\<rparr>]))"

section \<open>The worker\<close>

text \<open>
  \<open>processMessage\<close> awaits a timer first, which changes neither its result nor the log.
  \<open>try_block\<close> and \<open>catch_block\<close> are the two blocks of the loop body of \<open>handler\<close>,
  \<open>for_records\<close> is its \<^verbatim>\<open>for (const record of event.Records)\<close> loop with the array
  \<open>batchItemFailures\<close> as accumulator. Each \<^verbatim>\<open>await\<close> completes before the next
  statement runs.
\<close>

record process_result =
  success :: bool

definition processMessage :: "json \<Rightarrow> logger \<Rightarrow> process_result prog" where
  "processMessage message lg =
     (if \<not> truthy message \<or> typeof message \<noteq> ''object'' then
        prog_throw (Error (js ''Invalid message format''))
      else
        prog_bind (logger_info lg [(''message'', FJson message)] ''Processing business logic'')
          (\<lambda>_. prog_bind (prog_lift (get_property message (js ''shouldFail'')))
            (\<lambda>shouldFail.
               if truthy_property shouldFail then
                 prog_throw (Error (js ''Message processing failed intentionally''))
               else prog_return \<lparr>success = True\<rparr>)))"

definition try_block :: "logger \<Rightarrow> sqs_record \<Rightarrow> unit prog" where
  "try_block requestLogger record =
     prog_bind (logger_info requestLogger
                  [(''messageId'', FString (Some (messageId record)))] ''Processing message'')
       (\<lambda>_. prog_bind (prog_lift (JSON_parse (body record)))
         (\<lambda>messageBody. prog_bind (prog_lift (unwrap messageBody))
           (\<lambda>message. prog_bind (logger_info requestLogger
                                    [(''message'', FJson message)] ''Parsed message'')
             (\<lambda>_. prog_bind (processMessage message requestLogger)
               (\<lambda>_. logger_info requestLogger
                       [(''messageId'', FString (Some (messageId record)))]
                       ''Successfully processed message'')))))"

definition catch_block ::
  "logger \<Rightarrow> sqs_record \<Rightarrow> sqs_batch_item_failure list \<Rightarrow> error \<Rightarrow> sqs_batch_item_failure list prog" where
  "catch_block requestLogger record failures err =
     prog_bind (logger_error requestLogger
                  [(''messageId'', FString (Some (messageId record))), (''error'', FError err)]
                  ''Error processing message'')
       (\<lambda>_. prog_return (failures @ [\<lparr>itemIdentifier = messageId record\<rparr>]))"

fun for_records ::
  "logger \<Rightarrow> sqs_record list \<Rightarrow> sqs_batch_item_failure list \<Rightarrow> sqs_batch_item_failure list prog" where
  "for_records requestLogger [] failures = prog_return failures"
| "for_records requestLogger (record # rest) failures =
     prog_bind
       (try_catch
          (prog_bind (try_block requestLogger record) (\<lambda>_. prog_return failures))
          (catch_block requestLogger record failures))
       (for_records requestLogger rest)"

definition handler ::
  "logger \<Rightarrow> process_env \<Rightarrow> sqs_event \<Rightarrow> lambda_context \<Rightarrow> sqs_batch_response prog" where
  "handler logger env event context =
     (let requestLogger =
            logger_child logger
              [(''awsRequestId'', awsRequestId context), (''functionName'', functionName context)]
      in prog_bind (logger_info requestLogger [(''event'', FEvent event)] ''Event received'')
           (\<lambda>_. prog_bind
                   (logger_info requestLogger
                      [(''queueUrl'', FString (QUEUE_URL env)),
                       (''topicArn'', FString (TOPIC_ARN env)),
                       (''dlqUrl'', FString (DLQ_URL env)),
                       (''environment'', FString (ENVIRONMENT env)),
                       (''logLevel'', FString (LOG_LEVEL env))]
                      ''Environment Configuration'')
             (\<lambda>_. prog_bind (for_records requestLogger (Records event) [])
               (\<lambda>batchItemFailures. prog_return \<lparr>batchItemFailures = batchItemFailures\<rparr>))))"

section \<open>Loading the module\<close>

text \<open>
  \<^verbatim>\<open>utils/logger\<close> computes
  \<^verbatim>\<open>const logLevel = process.env.LOG_LEVEL?.toLowerCase() || "info"\<close>
  and builds the exported logger by calling the logging library with that level, once,
  when the module is loaded. The library is not part of the repository: its constructor,
  as a function of the level name that returns a logger or throws, is the argument
  \<open>library\<close>. \<open>toLowerCase\<close> lowers the letters A to Z, which is what the runtime does to
  a string of ASCII characters; on any string it agrees with the runtime on whether the
  result is one of the library's level names, since lowering a character outside A to Z
  never yields only letters of these names.
  \<open>invoke\<close> is an invocation of the function from a fresh process: the module is
  loaded under the environment, and \<open>handler\<close> runs with the logger built, if one was
  built; otherwise the error of the load is the outcome and nothing is processed.
\<close>

definition toLowerCase :: "jsstring \<Rightarrow> jsstring" where
  "toLowerCase s = map (\<lambda>c. if 0x41 \<le> c \<and> c \<le> 0x5A then c + 0x20 else c) s"

definition logLevel :: "process_env \<Rightarrow> jsstring" where
  "logLevel env =
     (case LOG_LEVEL env of
        None \<Rightarrow> js ''info''
      | Some l \<Rightarrow> if toLowerCase l = [] then js ''info'' else toLowerCase l)"

definition module_logger :: "(jsstring \<Rightarrow> error + logger) \<Rightarrow> process_env \<Rightarrow> error + logger" where
  "module_logger library env = library (logLevel env)"

definition invoke ::
  "(jsstring \<Rightarrow> error + logger) \<Rightarrow> process_env \<Rightarrow> sqs_event \<Rightarrow> lambda_context
     \<Rightarrow> (error + sqs_batch_response) \<times> log_entry list" where
  "invoke library env event context =
     (case module_logger library env of
        Inl err \<Rightarrow> (Inl err, [])
      | Inr logger \<Rightarrow> handler logger env event context [])"

text \<open>
  The level names of the logging library, and the library as its documentation describes
  it for a level given by name: it builds a logger for each of its seven level names and
  refuses any other name with an error that quotes the name. Of the refusals, the
  statements below use that of the name \<^verbatim>\<open>verbose\<close>.
\<close>

definition pino_levels :: "jsstring list" where
  "pino_levels =
     [js ''trace'', js ''debug'', js ''info'', js ''warn'', js ''error'', js ''fatal'',
      js ''silent'']"

definition pino_library :: "jsstring \<Rightarrow> error + logger" where
  "pino_library name =
     (if name \<in> set pino_levels then Inr \<lparr>logger_level = name, logger_bindings = []\<rparr>
      else Inl (Error (js ''default level:'' @ name
                         @ js '' must be included in custom levels'')))"

section \<open>Observations on a run\<close>

text \<open>
  What a run of the handler shows: the identifiers of its failure list, and the
  disposition of each message, read from the two calls that end the processing of a
  message (\<^verbatim>\<open>Successfully processed message\<close> and \<^verbatim>\<open>Error processing message\<close>).
\<close>

datatype disposition = Success | Failure

definition disposition_of :: "log_entry \<Rightarrow> (jsstring \<times> disposition) list" where
  "disposition_of entry =
     (case map_of (obj entry) ''messageId'' of
        Some (FString (Some i)) \<Rightarrow>
          if msg entry = ''Successfully processed message'' then [(i, Success)]
          else if msg entry = ''Error processing message'' then [(i, Failure)]
          else []
      | _ \<Rightarrow> [])"

definition dispositions :: "(error + sqs_batch_response) \<times> log_entry list \<Rightarrow> (jsstring \<times> disposition) list" where
  "dispositions result = concat (map disposition_of (snd result))"

definition failure_ids :: "(error + sqs_batch_response) \<times> log_entry list \<Rightarrow> jsstring list option" where
  "failure_ids result =
     (case fst result of
        Inl err \<Rightarrow> None
      | Inr response \<Rightarrow> Some (map itemIdentifier (batchItemFailures response)))"

text \<open>
  For the proofs: a computation only appends to the log; \<open>failing\<close> says that the try
  block of a record throws; \<open>iteration\<close> is one pass of the loop body, \<open>record_log\<close> what
  it logs, \<open>preamble\<close> what the handler logs before the loop.
\<close>

definition appends :: "'a prog \<Rightarrow> bool" where
  "appends p = (\<exists>r t. \<forall>log. p log = (r, log @ t))"

definition failing :: "sqs_record \<Rightarrow> bool" where
  "failing r = isl (fst (try_block root_logger r []))"

definition iteration ::
  "logger \<Rightarrow> sqs_record \<Rightarrow> sqs_batch_item_failure list \<Rightarrow> sqs_batch_item_failure list prog" where
  "iteration lg r fs =
     try_catch (prog_bind (try_block lg r) (\<lambda>_. prog_return fs)) (catch_block lg r fs)"

definition record_log :: "logger \<Rightarrow> sqs_record \<Rightarrow> log_entry list" where
  "record_log lg r = snd (iteration lg r [] [])"

definition request_logger :: "logger \<Rightarrow> lambda_context \<Rightarrow> logger" where
  "request_logger logger context =
     logger_child logger
       [(''awsRequestId'', awsRequestId context), (''functionName'', functionName context)]"

definition preamble ::
  "logger \<Rightarrow> process_env \<Rightarrow> sqs_event \<Rightarrow> lambda_context \<Rightarrow> log_entry list" where
  "preamble logger env event context =
     [\<lparr>bindings = logger_bindings (request_logger logger context), level = LevelInfo,
        obj = [(''event'', FEvent event)], msg = ''Event received''\<rparr>,
      \<lparr>bindings = logger_bindings (request_logger logger context), level = LevelInfo,
        obj = [(''queueUrl'', FString (QUEUE_URL env)),
               (''topicArn'', FString (TOPIC_ARN env)),
               (''dlqUrl'', FString (DLQ_URL env)),
               (''environment'', FString (ENVIRONMENT env)),
               (''logLevel'', FString (LOG_LEVEL env))],
        msg = ''Environment Configuration''\<rparr>]"

text \<open>
  The three steps at which the processing of a message can fail: parsing the body,
  unwrapping the envelope, running the business logic.
\<close>

definition parse_fails :: "sqs_record \<Rightarrow> bool" where
  "parse_fails r = isl (JSON_parse (body r))"

definition unwrap_fails :: "sqs_record \<Rightarrow> bool" where
  "unwrap_fails r =
     (case JSON_parse (body r) of
        Inl err \<Rightarrow> False
      | Inr messageBody \<Rightarrow> isl (unwrap messageBody))"

definition logic_fails :: "sqs_record \<Rightarrow> bool" where
  "logic_fails r =
     (case JSON_parse (body r) of
        Inl err \<Rightarrow> False
      | Inr messageBody \<Rightarrow>
          (case unwrap messageBody of
             Inl err \<Rightarrow> False
           | Inr message \<Rightarrow> isl (fst (processMessage message root_logger []))))"

text \<open>
  The same on the body alone; the failed and the succeeded identifiers of a list of
  dispositions; a payload that carries \<^verbatim>\<open>shouldFail: true\<close>; a message the worker
  processes without error; the try block once the payload is known; two applications of
  \<open>unwrap\<close>; a payload that \<open>unwrap\<close> leaves alone.
\<close>

definition body_fails :: "jsstring \<Rightarrow> bool" where
  "body_fails text =
     (case JSON_parse text of
        Inl err \<Rightarrow> True
      | Inr messageBody \<Rightarrow>
          (case unwrap messageBody of
             Inl err \<Rightarrow> True
           | Inr message \<Rightarrow> isl (fst (processMessage message root_logger []))))"

definition failed :: "(jsstring \<times> disposition) list \<Rightarrow> jsstring list" where
  "failed ds = map fst (filter (\<lambda>d. snd d = Failure) ds)"

definition succeeded :: "(jsstring \<times> disposition) list \<Rightarrow> jsstring list" where
  "succeeded ds = map fst (filter (\<lambda>d. snd d = Success) ds)"

definition carries_shouldFail_true :: "sqs_record \<Rightarrow> bool" where
  "carries_shouldFail_true r =
     (case JSON_parse (body r) of
        Inl err \<Rightarrow> False
      | Inr messageBody \<Rightarrow>
          (case unwrap messageBody of
             Inl err \<Rightarrow> False
           | Inr message \<Rightarrow> get_property message (js ''shouldFail'') = Inr (Some (JBool True))))"

definition processable :: "sqs_record \<Rightarrow> bool" where
  "processable r =
     (case JSON_parse (body r) of
        Inl err \<Rightarrow> False
      | Inr messageBody \<Rightarrow>
          (case unwrap messageBody of
             Inl err \<Rightarrow> False
           | Inr message \<Rightarrow>
               truthy message \<and> typeof message = ''object'' \<and>
               (case get_property message (js ''shouldFail'') of
                  Inl err \<Rightarrow> False
                | Inr shouldFail \<Rightarrow> \<not> truthy_property shouldFail)))"

definition with_payload :: "logger \<Rightarrow> sqs_record \<Rightarrow> json \<Rightarrow> unit prog" where
  "with_payload requestLogger record message =
     prog_bind (logger_info requestLogger
                  [(''messageId'', FString (Some (messageId record)))] ''Processing message'')
       (\<lambda>_. prog_bind (logger_info requestLogger
                         [(''message'', FJson message)] ''Parsed message'')
         (\<lambda>_. prog_bind (processMessage message requestLogger)
           (\<lambda>_. logger_info requestLogger
                   [(''messageId'', FString (Some (messageId record)))]
                   ''Successfully processed message'')))"

definition unwrap_twice :: "json \<Rightarrow> error + json" where
  "unwrap_twice x = (case unwrap x of Inl err \<Rightarrow> Inl err | Inr y \<Rightarrow> unwrap y)"

definition already_unwrapped :: "json \<Rightarrow> bool" where
  "already_unwrapped y =
     (case get_property y (js ''Message'') of
        Inl err \<Rightarrow> False
      | Inr m \<Rightarrow> \<not> truthy_property m)"

text \<open>
  The events of the repository's tests: records that differ in identifier, receipt handle
  and body, the environment the tests set and the one with every value unset.
\<close>

definition test_record :: "string \<Rightarrow> string \<Rightarrow> jsstring \<Rightarrow> sqs_record" where
  "test_record ident receipt text =
     \<lparr>messageId = js ident, receiptHandle = js receipt, body = text,
      attributes = \<lparr>ApproximateReceiveCount = js ''1'', SentTimestamp = js ''1234567890000'',
                    SenderId = js ''test-sender'',
                    ApproximateFirstReceiveTimestamp = js ''1234567890000''\<rparr>,
      messageAttributes = [], md5OfBody = js ''test-md5'', eventSource = js ''aws:sqs'',
      eventSourceARN = js ''arn:aws:sqs:us-east-1:123456789012:test-queue'',
      awsRegion = js ''us-east-1''\<rparr>"

definition test_context :: lambda_context where
  "test_context = \<lparr>awsRequestId = js ''test-request-id'', functionName = js ''test-function''\<rparr>"

definition test_env :: process_env where
  "test_env =
     \<lparr>QUEUE_URL = Some (js ''https://sqs.us-east-1.amazonaws.com/123456789012/test-queue''),
      TOPIC_ARN = Some (js ''arn:aws:sns:us-east-1:123456789012:test-topic''),
      DLQ_URL = Some (js ''https://sqs.us-east-1.amazonaws.com/123456789012/test-dlq''),
      ENVIRONMENT = Some (js ''test''), LOG_LEVEL = Some (js ''error'')\<rparr>"

definition no_env :: process_env where
  "no_env = \<lparr>QUEUE_URL = None, TOPIC_ARN = None, DLQ_URL = None, ENVIRONMENT = None,
              LOG_LEVEL = None\<rparr>"

definition simple_message :: sqs_record where
  "simple_message =
     test_record ''test-message-id-1'' ''test-receipt-handle''
       (js ''{\"test\":\"Hello from test\",\"data\":\"Some test data\"}'')"

definition sns_message :: sqs_record where
  "sns_message =
     test_record ''test-message-id-2'' ''test-receipt-handle''
       (js ''{\"Type\":\"Notification\",\"Message\":''
          @ quoted (js ''{\"test\":\"Hello from SNS\"}'') @ js ''}'')"

definition message_success_1 :: sqs_record where
  "message_success_1 =
     test_record ''message-success-1'' ''receipt-1'' (js ''{\"id\":1,\"data\":\"Success\"}'')"

definition message_fail :: sqs_record where
  "message_fail = test_record ''message-fail'' ''receipt-2'' (js ''{\"shouldFail\":true}'')"

definition message_success_2 :: sqs_record where
  "message_success_2 =
     test_record ''message-success-2'' ''receipt-3'' (js ''{\"id\":3,\"data\":\"Success\"}'')"

definition invalid_json_message :: sqs_record where
  "invalid_json_message =
     test_record ''invalid-json-message'' ''test-receipt-handle'' (js ''{ invalid json }'')"

definition sns_wrapped_message :: sqs_record where
  "sns_wrapped_message =
     test_record ''test-message-id-2'' ''test-receipt-handle''
       (js ''{\"Type\":\"Notification\",\"MessageId\":\"sns-message-id\",''
          @ js ''\"TopicArn\":\"arn:aws:sns:us-east-1:123456789012:test-topic\",\"Message\":''
          @ quoted (js ''{\"test\":\"Hello from SNS\",\"data\":\"SNS wrapped data\"}'')
          @ js '',\"Timestamp\":\"2024-01-01T00:00:00.000Z\",\"SignatureVersion\":\"1\",''
          @ js ''\"Signature\":\"test-signature\",''
          @ js ''\"SigningCertURL\":\"https://sns.us-east-1.amazonaws.com/test.pem\",''
          @ js ''\"UnsubscribeURL\":\"https://sns.us-east-1.amazonaws.com/unsubscribe\"}'')"

definition batch_messages :: "sqs_record list" where
  "batch_messages =
     [test_record ''message-1'' ''receipt-1'' (js ''{\"id\":1,\"data\":\"Message 1\"}''),
      test_record ''message-2'' ''receipt-2'' (js ''{\"id\":2,\"data\":\"Message 2\"}''),
      test_record ''message-3'' ''receipt-3'' (js ''{\"id\":3,\"data\":\"Message 3\"}'')]"

definition test_message_fail :: sqs_record where
  "test_message_fail =
     test_record ''test-message-fail'' ''test-receipt-handle''
       (js ''{\"shouldFail\":true,\"data\":\"This should fail\"}'')"

definition number_message :: sqs_record where
  "number_message = test_record ''number-message'' ''receipt-4'' (js ''5'')"

definition truthy_flag_message :: sqs_record where
  "truthy_flag_message =
     test_record ''truthy-flag-message'' ''receipt-5'' (js ''{\"shouldFail\":1}'')"

definition bad_envelope_message :: sqs_record where
  "bad_envelope_message =
     test_record ''bad-envelope-message'' ''receipt-6'' (js ''{\"Message\":\"oops\"}'')"

definition empty_envelope_message :: sqs_record where
  "empty_envelope_message =
     test_record ''empty-envelope-message'' ''receipt-7'' (js ''{\"Message\":\"\"}'')"

definition number_envelope_message :: sqs_record where
  "number_envelope_message =
     test_record ''number-envelope-message'' ''receipt-8''
       (js ''{\"Message\":['' @ quoted (js ''{\"k\":\"'') @ js '',9007199254740993,''
          @ quoted (js ''\"}'') @ js '']}'')"

definition verbose_env :: process_env where
  "verbose_env = test_env\<lparr>LOG_LEVEL := Some (js ''verbose'')\<rparr>"

definition upper_case_env :: process_env where
  "upper_case_env = test_env\<lparr>LOG_LEVEL := Some (js ''ERROR'')\<rparr>"

definition nested_envelope :: json where
  "nested_envelope = JObject [(js ''Message'', JString (js ''{\"Message\":\"{}\"}''))]"

section \<open>The loop, step by step\<close>

lemma appendsI: "(\<And>log. p log = (r, log @ t)) \<Longrightarrow> appends p"
  unfolding appends_def by blast

lemma appendsD: "appends p \<Longrightarrow> p log = (fst (p []), log @ snd (p []))"
proof -
  assume "appends p"
  then obtain r t where rt: "\<And>log. p log = (r, log @ t)"
    unfolding appends_def by blast
  have "p [] = (r, t)" using rt [of "[]"] by simp
  with rt [of log] show ?thesis by simp
qed

lemma appends_return: "appends (prog_return x)"
  by (rule appendsI [where r = "Inr x" and t = "[]"]) (simp add: prog_return_def)

lemma appends_throw: "appends (prog_throw e)"
  by (rule appendsI [where r = "Inl e" and t = "[]"]) (simp add: prog_throw_def)

lemma appends_lift: "appends (prog_lift r)"
  by (rule appendsI [where r = r and t = "[]"]) (simp add: prog_lift_def)

lemma appends_info: "appends (logger_info lg fs m)"
  by (rule appendsI [where r = "Inr ()"]) (simp add: logger_info_def)

lemma appends_error: "appends (logger_error lg fs m)"
  by (rule appendsI [where r = "Inr ()"]) (simp add: logger_error_def)

lemma appends_bind:
  assumes p: "appends p" and f: "\<And>x. appends (f x)"
  shows "appends (prog_bind p f)"
proof -
  from p obtain r t where rt: "\<And>log. p log = (r, log @ t)"
    unfolding appends_def by blast
  show ?thesis
  proof (cases r)
    case (Inl e)
    show ?thesis
      by (rule appendsI [where r = "Inl e" and t = t]) (simp add: prog_bind_def rt Inl)
  next
    case (Inr x)
    from f [of x] obtain r' t' where rt': "\<And>log. f x log = (r', log @ t')"
      unfolding appends_def by blast
    show ?thesis
      by (rule appendsI [where r = r' and t = "t @ t'"]) (simp add: prog_bind_def rt Inr rt')
  qed
qed

lemma appends_try_catch:
  assumes p: "appends p" and h: "\<And>e. appends (h e)"
  shows "appends (try_catch p h)"
proof -
  from p obtain r t where rt: "\<And>log. p log = (r, log @ t)"
    unfolding appends_def by blast
  show ?thesis
  proof (cases r)
    case (Inr x)
    show ?thesis
      by (rule appendsI [where r = "Inr x" and t = t]) (simp add: try_catch_def rt Inr)
  next
    case (Inl e)
    from h [of e] obtain r' t' where rt': "\<And>log. h e log = (r', log @ t')"
      unfolding appends_def by blast
    show ?thesis
      by (rule appendsI [where r = r' and t = "t @ t'"]) (simp add: try_catch_def rt Inl rt')
  qed
qed

lemmas appends_intros = appends_return appends_throw appends_lift appends_info appends_error
  appends_bind appends_try_catch

lemma appends_processMessage: "appends (processMessage message lg)"
  unfolding processMessage_def by (auto intro!: appends_intros)

lemma appends_try_block: "appends (try_block lg r)"
  unfolding try_block_def by (intro appends_intros appends_processMessage)

lemma appends_catch_block: "appends (catch_block lg r fs e)"
  unfolding catch_block_def by (intro appends_intros)

lemma processMessage_fst:
  "fst (processMessage m lg log) = fst (processMessage m root_logger [])"
  by (simp add: processMessage_def prog_bind_def prog_throw_def prog_return_def prog_lift_def
      logger_info_def split: sum.splits)

lemma bind_info:
  "prog_bind (logger_info lg fs t) f log =
     f () (log @ [\<lparr>bindings = logger_bindings lg, level = LevelInfo, obj = fs, msg = t\<rparr>])"
  by (simp add: prog_bind_def logger_info_def)

lemma bind_lift:
  "prog_bind (prog_lift r) f log = (case r of Inl e \<Rightarrow> (Inl e, log) | Inr x \<Rightarrow> f x log)"
  by (simp add: prog_bind_def prog_lift_def split: sum.splits)

lemma try_block_fst:
  "fst (try_block lg r log) =
     (case JSON_parse (body r) of
        Inl e \<Rightarrow> Inl e
      | Inr mb \<Rightarrow>
          (case unwrap mb of
             Inl e \<Rightarrow> Inl e
           | Inr m \<Rightarrow> map_sum id (\<lambda>_. ()) (fst (processMessage m root_logger []))))"
proof (cases "JSON_parse (body r)")
  case (Inl e)
  then show ?thesis
    by (simp add: try_block_def bind_info bind_lift)
next
  case parsed: (Inr mb)
  show ?thesis
  proof (cases "unwrap mb")
    case (Inl e)
    with parsed show ?thesis
      by (simp add: try_block_def bind_info bind_lift)
  next
    case (Inr m)
    have "fst (prog_bind (processMessage m lg) (\<lambda>_. logger_info lg fs t) l) =
        map_sum id (\<lambda>_. ()) (fst (processMessage m root_logger []))" for fs t l
      using processMessage_fst [of m lg l]
      by (cases "processMessage m lg l"; cases "fst (processMessage m root_logger [])")
         (simp_all add: prog_bind_def logger_info_def)
    with parsed Inr show ?thesis
      by (simp add: try_block_def bind_info bind_lift)
  qed
qed

lemma try_block_isl: "isl (fst (try_block lg r log)) = failing r"
  by (simp add: failing_def try_block_fst)

lemma appends_iteration: "appends (iteration lg r fs)"
  unfolding iteration_def
  by (intro appends_intros appends_try_block appends_catch_block)

lemma iteration_fst:
  "fst (iteration lg r fs log) =
     Inr (if failing r then fs @ [\<lparr>itemIdentifier = messageId r\<rparr>] else fs)"
proof (cases "fst (try_block lg r log)")
  case (Inl e)
  then have "failing r" using try_block_isl [of lg r log] by simp
  with Inl show ?thesis
    by (cases "try_block lg r log")
       (simp add: iteration_def try_catch_def prog_bind_def catch_block_def logger_error_def
          prog_return_def)
next
  case (Inr u)
  then have "\<not> failing r" using try_block_isl [of lg r log] by simp
  with Inr show ?thesis
    by (cases "try_block lg r log")
       (simp add: iteration_def try_catch_def prog_bind_def prog_return_def)
qed

lemma iteration_snd: "snd (iteration lg r fs log) = log @ record_log lg r"
proof -
  have "snd (iteration lg r fs l) = snd (iteration lg r [] l)" for l
    by (cases "try_block lg r l"; cases "fst (try_block lg r l)")
       (simp_all add: iteration_def try_catch_def prog_bind_def catch_block_def logger_error_def
          prog_return_def)
  then show ?thesis
    using appendsD [OF appends_iteration, of lg r fs log] by (simp add: record_log_def)
qed

lemma iteration_eq:
  "iteration lg r fs log =
     (Inr (if failing r then fs @ [\<lparr>itemIdentifier = messageId r\<rparr>] else fs),
      log @ record_log lg r)"
  using iteration_fst [of lg r fs log] iteration_snd [of lg r fs log]
  by (cases "iteration lg r fs log") simp

lemma for_records_eq:
  "for_records lg rs fs log =
     (Inr (fs @ map (\<lambda>r. \<lparr>itemIdentifier = messageId r\<rparr>) (filter failing rs)),
      log @ concat (map (record_log lg) rs))"
proof (induction rs arbitrary: fs log)
  case Nil
  show ?case by (simp add: prog_return_def)
next
  case (Cons r rs)
  have "for_records lg (r # rs) fs log = prog_bind (iteration lg r fs) (for_records lg rs) log"
    by (simp add: iteration_def)
  then show ?case
    by (simp add: prog_bind_def iteration_eq Cons.IH)
qed

lemma handler_eq:
  "handler lgr env event context log =
     (Inr \<lparr>batchItemFailures =
             map (\<lambda>r. \<lparr>itemIdentifier = messageId r\<rparr>) (filter failing (Records event))\<rparr>,
      log @ preamble lgr env event context
          @ concat (map (record_log (request_logger lgr context)) (Records event)))"
  by (simp add: handler_def Let_def prog_bind_def logger_info_def for_records_eq prog_return_def
      preamble_def request_logger_def)

lemma disposition_of_record_log:
  "concat (map disposition_of (record_log lg r)) =
     [(messageId r, if failing r then Failure else Success)]"
proof -
  show ?thesis
    unfolding record_log_def iteration_def failing_def try_block_def processMessage_def
      try_catch_def prog_bind_def prog_lift_def prog_return_def prog_throw_def catch_block_def
      logger_info_def logger_error_def
    by (auto simp: disposition_of_def split: sum.splits prod.splits)
qed

lemma isl_map_sum: "isl (map_sum f g x) = isl x"
  by (cases x) simp_all

lemma failing_body: "failing r = body_fails (body r)"
  by (simp add: failing_def body_fails_def try_block_fst isl_map_sum split: sum.splits)

lemma failing_steps: "failing r = (parse_fails r \<or> unwrap_fails r \<or> logic_fails r)"
  by (simp add: failing_body body_fails_def parse_fails_def unwrap_fails_def logic_fails_def
      split: sum.splits)

lemma processMessage_result:
  "fst (processMessage m lg log) =
     (if \<not> truthy m \<or> typeof m \<noteq> ''object'' then Inl (Error (js ''Invalid message format''))
      else case get_property m (js ''shouldFail'') of
             Inl err \<Rightarrow> Inl err
           | Inr shouldFail \<Rightarrow>
               if truthy_property shouldFail
               then Inl (Error (js ''Message processing failed intentionally''))
               else Inr \<lparr>success = True\<rparr>)"
  by (simp add: processMessage_def prog_bind_def prog_throw_def prog_return_def prog_lift_def
      logger_info_def split: sum.splits)

lemma failing_processable: "failing r = (\<not> processable r)"
  by (auto simp: failing_body body_fails_def processable_def processMessage_result
      split: sum.splits)

lemma disposition_of_preamble: "concat (map disposition_of (preamble lgr env event ctx)) = []"
  by (simp add: preamble_def disposition_of_def)

lemma dispositions_handler:
  "dispositions (handler lgr env event ctx []) =
     map (\<lambda>r. (messageId r, if failing r then Failure else Success)) (Records event)"
proof -
  have "concat (map disposition_of (concat (map (record_log lg) rs))) =
      map (\<lambda>r. (messageId r, if failing r then Failure else Success)) rs" for lg rs
    by (induction rs) (simp_all add: disposition_of_record_log)
  then show ?thesis
    by (simp add: dispositions_def handler_eq disposition_of_preamble)
qed

lemma failure_ids_handler:
  "failure_ids (handler lgr env event ctx log) =
     Some (map messageId (filter failing (Records event)))"
  by (simp add: failure_ids_def handler_eq comp_def)

lemma failed_dispositions:
  "failed (map (\<lambda>r. (messageId r, if failing r then Failure else Success)) rs) =
     map messageId (filter failing rs)"
  by (induction rs) (simp_all add: failed_def)

lemma succeeded_dispositions:
  "succeeded (map (\<lambda>r. (messageId r, if failing r then Failure else Success)) rs) =
     map messageId (filter (\<lambda>r. \<not> failing r) rs)"
  by (induction rs) (simp_all add: succeeded_def)

lemma try_block_payload:
  assumes "JSON_parse (body r) = Inr mb" and "unwrap mb = Inr m"
  shows "try_block lg r = with_payload lg r m"
  using assms by (intro ext) (simp add: try_block_def with_payload_def bind_info bind_lift)

lemma unwrap_error_failing:
  assumes "JSON_parse (body r) = Inr mb" and "unwrap mb = Inl err"
  shows "failing r"
  using assms by (simp add: failing_body body_fails_def)

lemma failing_recorded:
  assumes "failing r" and "r \<in> set (Records event)"
  shows "\<exists>fs. failure_ids (handler lgr env event ctx log) = Some fs \<and> messageId r \<in> set fs"
  using assms by (auto simp: failure_ids_handler)

section \<open>Partial-batch failure isolation\<close>

text \<open>
  C1. Failure isolation. Whenever the message at some position of a batch is recorded as a
  Failure, the dispositions of the messages before and after it are exactly the
  dispositions they get in the batch without that message, and the reported failure
  identifiers of the two batches differ only by the failing message's identifier at its
  place.
\<close>

theorem failure_isolation:
  assumes "dispositions (handler lgr env \<lparr>Records = xs @ r # ys\<rparr> ctx []) ! length xs
             = (messageId r, Failure)"
  shows "\<exists>dx dy. length dx = length xs \<and> length dy = length ys
           \<and> dispositions (handler lgr env \<lparr>Records = xs @ r # ys\<rparr> ctx [])
               = dx @ (messageId r, Failure) # dy
           \<and> dispositions (handler lgr env \<lparr>Records = xs @ ys\<rparr> ctx []) = dx @ dy
           \<and> failure_ids (handler lgr env \<lparr>Records = xs @ r # ys\<rparr> ctx [])
               = Some (failed dx @ messageId r # failed dy)
           \<and> failure_ids (handler lgr env \<lparr>Records = xs @ ys\<rparr> ctx [])
               = Some (failed dx @ failed dy)"
proof -
  let ?d = "\<lambda>r. (messageId r, if failing r then Failure else Success)"
  from assms have "failing r"
    by (simp add: dispositions_handler nth_append split: if_splits)
  then show ?thesis
    by (intro exI [of _ "map ?d xs"] exI [of _ "map ?d ys"])
       (simp add: dispositions_handler failure_ids_handler failed_dispositions)
qed

theorem failure_isolation_witness:
  "dispositions (handler root_logger test_env
       \<lparr>Records = [message_success_1] @ message_fail # [message_success_2]\<rparr> test_context [])
     ! length [message_success_1] = (messageId message_fail, Failure)
   \<and> (\<exists>dx dy. length dx = length [message_success_1] \<and> length dy = length [message_success_2]
         \<and> dispositions (handler root_logger test_env
              \<lparr>Records = [message_success_1] @ message_fail # [message_success_2]\<rparr>
              test_context [])
             = dx @ (messageId message_fail, Failure) # dy
         \<and> dispositions (handler root_logger test_env
              \<lparr>Records = [message_success_1] @ [message_success_2]\<rparr> test_context [])
             = dx @ dy
         \<and> failure_ids (handler root_logger test_env
              \<lparr>Records = [message_success_1] @ message_fail # [message_success_2]\<rparr>
              test_context [])
             = Some (failed dx @ messageId message_fail # failed dy)
         \<and> failure_ids (handler root_logger test_env
              \<lparr>Records = [message_success_1] @ [message_success_2]\<rparr> test_context [])
             = Some (failed dx @ failed dy))"
proof -
  have h: "dispositions (handler root_logger test_env
       \<lparr>Records = [message_success_1] @ message_fail # [message_success_2]\<rparr> test_context [])
     ! length [message_success_1] = (messageId message_fail, Failure)"
    by code_simp
  from h failure_isolation [OF h] show ?thesis by (rule conjI)
qed

section \<open>Every message has exactly one disposition\<close>

text \<open>
  C2. Exactly-one disposition. In a batch whose message identifiers are distinct, no
  identifier is reported as failed twice, no identifier is both failed and succeeded, the
  failed and the succeeded identifiers together are exactly the identifiers of the batch,
  and the identifiers absent from the failure set are precisely those whose processing
  completed.
\<close>

theorem exactly_one_disposition:
  assumes "distinct (map messageId (Records event))"
  shows "\<exists>fs. failure_ids (handler lgr env event ctx []) = Some fs
           \<and> distinct fs
           \<and> distinct (succeeded (dispositions (handler lgr env event ctx [])))
           \<and> set fs \<inter> set (succeeded (dispositions (handler lgr env event ctx []))) = {}
           \<and> set fs \<union> set (succeeded (dispositions (handler lgr env event ctx [])))
               = set (map messageId (Records event))
           \<and> succeeded (dispositions (handler lgr env event ctx []))
               = filter (\<lambda>i. i \<notin> set fs) (map messageId (Records event))
           \<and> length fs + length (succeeded (dispositions (handler lgr env event ctx [])))
               = length (Records event)"
proof -
  let ?rs = "Records event"
  let ?fs = "map messageId (filter failing ?rs)"
  let ?ss = "map messageId (filter (\<lambda>r. \<not> failing r) ?rs)"
  have inj: "inj_on messageId (set ?rs)" and d: "distinct ?rs"
    using assms by (simp_all add: distinct_map)
  have d1: "distinct ?fs"
    using assms by (rule distinct_map_filter)
  have d2: "distinct ?ss"
    using assms by (rule distinct_map_filter)
  have mem: "messageId r \<in> set ?fs \<longleftrightarrow> failing r" if "r \<in> set ?rs" for r
    using that inj by (auto simp: inj_on_def)
  have disj: "set ?fs \<inter> set ?ss = {}"
    using inj by (auto simp: inj_on_def)
  have un: "set ?fs \<union> set ?ss = set (map messageId ?rs)"
    by auto
  have "filter (\<lambda>i. i \<notin> set ?fs) (map messageId ?rs)
      = map messageId (filter (\<lambda>r. messageId r \<notin> set ?fs) ?rs)"
    by (simp add: filter_map comp_def)
  also have "\<dots> = ?ss"
    using mem by (intro arg_cong [where f = "map messageId"] filter_cong) auto
  finally have flt: "?ss = filter (\<lambda>i. i \<notin> set ?fs) (map messageId ?rs)" by simp
  have len: "length ?fs + length ?ss = length ?rs"
    using sum_length_filter_compl [of failing ?rs] by simp
  show ?thesis
    unfolding failure_ids_handler dispositions_handler succeeded_dispositions
    using d1 d2 disj un flt len by blast
qed

theorem exactly_one_disposition_witness:
  "distinct (map messageId
      (Records \<lparr>Records = [message_success_1, message_fail, message_success_2]\<rparr>))
   \<and> (\<exists>fs. failure_ids (handler root_logger test_env
               \<lparr>Records = [message_success_1, message_fail, message_success_2]\<rparr>
               test_context []) = Some fs
         \<and> distinct fs
         \<and> distinct (succeeded (dispositions (handler root_logger test_env
               \<lparr>Records = [message_success_1, message_fail, message_success_2]\<rparr>
               test_context [])))
         \<and> set fs \<inter> set (succeeded (dispositions (handler root_logger test_env
               \<lparr>Records = [message_success_1, message_fail, message_success_2]\<rparr>
               test_context []))) = {}
         \<and> set fs \<union> set (succeeded (dispositions (handler root_logger test_env
               \<lparr>Records = [message_success_1, message_fail, message_success_2]\<rparr>
               test_context [])))
             = set (map messageId
                 (Records \<lparr>Records = [message_success_1, message_fail, message_success_2]\<rparr>))
         \<and> succeeded (dispositions (handler root_logger test_env
               \<lparr>Records = [message_success_1, message_fail, message_success_2]\<rparr>
               test_context []))
             = filter (\<lambda>i. i \<notin> set fs) (map messageId
                 (Records \<lparr>Records = [message_success_1, message_fail, message_success_2]\<rparr>))
         \<and> length fs + length (succeeded (dispositions (handler root_logger test_env
               \<lparr>Records = [message_success_1, message_fail, message_success_2]\<rparr>
               test_context [])))
             = length (Records
                 \<lparr>Records = [message_success_1, message_fail, message_success_2]\<rparr>))"
proof -
  have h: "distinct (map messageId
      (Records \<lparr>Records = [message_success_1, message_fail, message_success_2]\<rparr>))"
    by code_simp
  from h exactly_one_disposition [OF h] show ?thesis by (rule conjI)
qed

section \<open>The failure set holds identifiers of the batch only\<close>

text \<open>
  C3. Every identifier in the failure set returned for a batch is the messageId of a
  message of that batch.
\<close>

theorem no_foreign_identifiers:
  "\<exists>fs. failure_ids (handler lgr env event ctx log) = Some fs
        \<and> set fs \<subseteq> set (map messageId (Records event))"
  by (auto simp: failure_ids_handler)

section \<open>Batches that succeed entirely\<close>

text \<open>
  C4, as stated: a batch whose bodies are all valid JSON and in which no payload carries
  shouldFail: true yields an empty failure set. The three messages below have valid JSON
  bodies and none carries shouldFail: true, yet each is reported as failed: the payload
  5 is not an object, the flag 1 is truthy without being true, and the Message field of
  the third is not JSON text.
\<close>

theorem valid_json_batch_counterexample:
  "\<not> parse_fails number_message \<and> \<not> carries_shouldFail_true number_message
   \<and> \<not> parse_fails truthy_flag_message \<and> \<not> carries_shouldFail_true truthy_flag_message
   \<and> \<not> parse_fails bad_envelope_message \<and> \<not> carries_shouldFail_true bad_envelope_message
   \<and> failure_ids (handler root_logger test_env
         \<lparr>Records = [number_message, truthy_flag_message, bad_envelope_message]\<rparr>
         test_context [])
       = Some [js ''number-message'', js ''truthy-flag-message'', js ''bad-envelope-message'']"
  by code_simp

text \<open>
  C4, amended. A batch yields an empty failure set when every body is valid JSON, its
  envelope (if any) unwraps, and the effective payload is a non-null object or array
  whose shouldFail property is absent or falsy.
\<close>

theorem well_formed_batch_succeeds:
  assumes "\<forall>r \<in> set (Records event). processable r"
  shows "fst (handler lgr env event ctx log) = Inr \<lparr>batchItemFailures = []\<rparr>"
proof -
  from assms have "filter failing (Records event) = []"
    by (simp add: failing_processable filter_empty_conv)
  then show ?thesis by (simp add: handler_eq)
qed

theorem well_formed_batch_succeeds_witness:
  "fst (handler root_logger test_env \<lparr>Records = [message_success_1, simple_message, sns_message]\<rparr>
          test_context [])
     = Inr \<lparr>batchItemFailures = []\<rparr>"
proof -
  have h: "\<forall>r \<in> set (Records \<lparr>Records = [message_success_1, simple_message, sns_message]\<rparr>).
             processable r"
    by code_simp
  from well_formed_batch_succeeds [OF h] show ?thesis .
qed

section \<open>Errors never leave the loop\<close>

text \<open>
  C5. The handler always returns a response. Whatever error the processing of one message
  raises (from parsing the body, from unwrapping, from the business logic), the message's
  identifier is in the returned failure list; and every entry of that list stands for a
  message of the batch whose processing raised.
\<close>

theorem errors_caught_per_message:
  "\<exists>response log'. handler lgr env event ctx log = (Inr response, log')
     \<and> (\<forall>r \<in> set (Records event). \<forall>lg log1 err.
           fst (try_block lg r log1) = Inl err \<longrightarrow>
             \<lparr>itemIdentifier = messageId r\<rparr> \<in> set (batchItemFailures response))
     \<and> (\<forall>f \<in> set (batchItemFailures response). \<exists>r \<in> set (Records event).
           f = \<lparr>itemIdentifier = messageId r\<rparr> \<and> isl (fst (try_block lg r log1)))"
proof -
  have "failing r" if "fst (try_block lg r log1) = Inl err" for r lg log1 err
    using that try_block_isl [of lg r log1] by simp
  then show ?thesis
    by (auto simp: handler_eq try_block_isl)
qed

theorem errors_caught_per_message_witness:
  "fst (try_block root_logger invalid_json_message []) = Inl SyntaxError
   \<and> (\<exists>response log'.
         handler root_logger test_env \<lparr>Records = [invalid_json_message]\<rparr> test_context []
           = (Inr response, log')
         \<and> \<lparr>itemIdentifier = messageId invalid_json_message\<rparr>
             \<in> set (batchItemFailures response))"
proof -
  have h: "fst (try_block root_logger invalid_json_message []) = Inl SyntaxError"
    by code_simp
  have m: "invalid_json_message \<in> set (Records \<lparr>Records = [invalid_json_message]\<rparr>)"
    by simp
  from errors_caught_per_message
    [of root_logger test_env "\<lparr>Records = [invalid_json_message]\<rparr>" test_context "[]"
        root_logger "[]"]
  obtain response log' where
    r: "handler root_logger test_env \<lparr>Records = [invalid_json_message]\<rparr> test_context []
          = (Inr response, log')"
    and c: "\<forall>r \<in> set (Records \<lparr>Records = [invalid_json_message]\<rparr>). \<forall>lg log1 err.
           fst (try_block lg r log1) = Inl err \<longrightarrow>
             \<lparr>itemIdentifier = messageId r\<rparr> \<in> set (batchItemFailures response)"
    by blast
  from c m h have "\<lparr>itemIdentifier = messageId invalid_json_message\<rparr>
      \<in> set (batchItemFailures response)"
    by blast
  with r h show ?thesis by blast
qed

section \<open>Envelope unwrapping\<close>

text \<open>
  C6, as stated: an object body with a Message field has that field's value parsed as
  JSON, and the message is a Failure when the value fails to parse. The body below is an
  object whose Message field is the empty string, which is not JSON text; the message is
  nevertheless processed successfully, with the body itself as payload.
\<close>

theorem message_field_counterexample:
  "JSON_parse (body empty_envelope_message) = Inr (JObject [(js ''Message'', JString [])])
   \<and> JSON_parse [] = Inl SyntaxError
   \<and> unwrap (JObject [(js ''Message'', JString [])]) = Inr (JObject [(js ''Message'', JString [])])
   \<and> failure_ids (handler root_logger test_env \<lparr>Records = [empty_envelope_message]\<rparr> test_context [])
       = Some []
   \<and> dispositions (handler root_logger test_env \<lparr>Records = [empty_envelope_message]\<rparr> test_context [])
       = [(js ''empty-envelope-message'', Success)]"
  by code_simp

text \<open>
  C6, amended. For a body that parses to an object: when the object has a Message
  property whose value is truthy, that value is converted to a string and parsed as JSON,
  the result is the payload the business logic receives, and the message is recorded as a
  Failure when the conversion or the parse fails; when the property is absent or falsy,
  the parsed body itself is the payload.
\<close>

theorem envelope_unwrapping:
  assumes "JSON_parse (body r) = Inr (JObject members)" and "r \<in> set (Records event)"
  shows "case map_of (rev members) (js ''Message'') of
           None \<Rightarrow> try_block lg r = with_payload lg r (JObject members)
         | Some v \<Rightarrow>
             if truthy v then
               (case ToString v of
                  Inl err \<Rightarrow>
                    (\<exists>fs. failure_ids (handler lgr env event ctx log) = Some fs
                          \<and> messageId r \<in> set fs)
                | Inr s \<Rightarrow>
                    (case JSON_parse s of
                       Inl err \<Rightarrow>
                         (\<exists>fs. failure_ids (handler lgr env event ctx log) = Some fs
                               \<and> messageId r \<in> set fs)
                     | Inr payload \<Rightarrow> try_block lg r = with_payload lg r payload))
             else try_block lg r = with_payload lg r (JObject members)"
proof (cases "map_of (rev members) (js ''Message'')")
  case None
  then have "unwrap (JObject members) = Inr (JObject members)"
    by (simp add: unwrap_def get_property_def)
  with None try_block_payload [OF assms(1)] show ?thesis by simp
next
  case (Some v)
  show ?thesis
  proof (cases "truthy v")
    case False
    with Some have "unwrap (JObject members) = Inr (JObject members)"
      by (simp add: unwrap_def get_property_def)
    with Some False try_block_payload [OF assms(1)] show ?thesis by simp
  next
    case True
    show ?thesis
    proof (cases "ToString v")
      case (Inl err)
      with Some True have "unwrap (JObject members) = Inl err"
        by (simp add: unwrap_def get_property_def)
      from failing_recorded [OF unwrap_error_failing [OF assms(1) this] assms(2)]
      show ?thesis using Some True Inl by simp
    next
      case str: (Inr s)
      show ?thesis
      proof (cases "JSON_parse s")
        case (Inl err)
        with Some True str have "unwrap (JObject members) = Inl err"
          by (simp add: unwrap_def get_property_def)
        from failing_recorded [OF unwrap_error_failing [OF assms(1) this] assms(2)]
        show ?thesis using Some True str Inl by simp
      next
        case (Inr payload)
        with Some True str have "unwrap (JObject members) = Inr payload"
          by (simp add: unwrap_def get_property_def)
        with Some True str Inr try_block_payload [OF assms(1)] show ?thesis by simp
      qed
    qed
  qed
qed

theorem envelope_unwrapping_witness:
  "JSON_parse (body sns_message)
     = Inr (JObject [(js ''Type'', JString (js ''Notification'')),
                     (js ''Message'', JString (js ''{\"test\":\"Hello from SNS\"}''))])
   \<and> sns_message \<in> set (Records \<lparr>Records = [sns_message]\<rparr>)
   \<and> try_block root_logger sns_message
       = with_payload root_logger sns_message
           (JObject [(js ''test'', JString (js ''Hello from SNS''))])"
proof -
  have h1: "JSON_parse (body sns_message)
     = Inr (JObject [(js ''Type'', JString (js ''Notification'')),
                     (js ''Message'', JString (js ''{\"test\":\"Hello from SNS\"}''))])"
    by code_simp
  have h2: "sns_message \<in> set (Records \<lparr>Records = [sns_message]\<rparr>)"
    by simp
  have l: "map_of (rev [(js ''Type'', JString (js ''Notification'')),
                        (js ''Message'', JString (js ''{\"test\":\"Hello from SNS\"}''))])
             (js ''Message'')
           = Some (JString (js ''{\"test\":\"Hello from SNS\"}''))"
    by code_simp
  have t: "truthy (JString (js ''{\"test\":\"Hello from SNS\"}''))"
    by code_simp
  have p: "JSON_parse (js ''{\"test\":\"Hello from SNS\"}'')
           = Inr (JObject [(js ''test'', JString (js ''Hello from SNS''))])"
    by code_simp
  from envelope_unwrapping [OF h1 h2, of root_logger root_logger test_env test_context "[]"]
  have "try_block root_logger sns_message
       = with_payload root_logger sns_message
           (JObject [(js ''test'', JString (js ''Hello from SNS''))])"
    unfolding l option.case if_P [OF t] ToString.simps sum.case p .
  with h1 h2 show ?thesis by blast
qed

section \<open>Unwrapping twice\<close>

text \<open>
  C7, as stated: unwrapping an unwrapped payload changes nothing, for every parsed body.
  An envelope whose inner payload is itself an envelope is unwrapped once more by a
  second application.
\<close>

theorem unwrap_twice_counterexample:
  "unwrap nested_envelope = Inr (JObject [(js ''Message'', JString (js ''{}''))])
   \<and> unwrap_twice nested_envelope = Inr (JObject [])
   \<and> unwrap_twice nested_envelope \<noteq> unwrap nested_envelope"
  by code_simp

text \<open>
  C7, amended. When the unwrapped payload is not null and has no truthy Message property,
  unwrapping it again returns it unchanged, so that unwrapping twice equals unwrapping
  once.
\<close>

theorem unwrap_idempotent_on_unwrapped:
  assumes "unwrap x = Inr y" and "already_unwrapped y"
  shows "unwrap y = Inr y \<and> unwrap_twice x = unwrap x"
proof -
  from assms(2) have "unwrap y = Inr y"
    by (auto simp: already_unwrapped_def unwrap_def split: sum.splits option.splits)
  with assms(1) show ?thesis by (simp add: unwrap_twice_def)
qed

theorem unwrap_idempotent_on_unwrapped_witness:
  "unwrap (JObject [(js ''Message'', JString (js ''{\"test\":\"hi\"}''))])
     = Inr (JObject [(js ''test'', JString (js ''hi''))])
   \<and> already_unwrapped (JObject [(js ''test'', JString (js ''hi''))])
   \<and> unwrap (JObject [(js ''test'', JString (js ''hi''))])
       = Inr (JObject [(js ''test'', JString (js ''hi''))])
   \<and> unwrap_twice (JObject [(js ''Message'', JString (js ''{\"test\":\"hi\"}''))])
       = unwrap (JObject [(js ''Message'', JString (js ''{\"test\":\"hi\"}''))])"
proof -
  have h1: "unwrap (JObject [(js ''Message'', JString (js ''{\"test\":\"hi\"}''))])
     = Inr (JObject [(js ''test'', JString (js ''hi''))])"
    by code_simp
  have h2: "already_unwrapped (JObject [(js ''test'', JString (js ''hi''))])"
    by code_simp
  from h1 h2 unwrap_idempotent_on_unwrapped [OF h1 h2] show ?thesis by blast
qed

section \<open>Order of the failure list\<close>

text \<open>
  C8. The failure list holds, in the order of the batch, one entry for each message whose
  body fails to parse, whose envelope fails to unwrap, or whose business logic raises, and
  nothing else.
\<close>

theorem deterministic_order:
  "fst (handler lgr env event ctx log) =
     Inr \<lparr>batchItemFailures =
            map (\<lambda>r. \<lparr>itemIdentifier = messageId r\<rparr>)
              (filter (\<lambda>r. parse_fails r \<or> unwrap_fails r \<or> logic_fails r) (Records event))\<rparr>"
  by (simp add: handler_eq failing_steps [abs_def])

section \<open>Configuration and record metadata\<close>

text \<open>
  C9, as stated: the report is the same for any assignment of the five environment
  values, the log level among them. Under \<^verbatim>\<open>LOG_LEVEL=verbose\<close> the library refuses to
  build the logger when the module is loaded, and the invocation ends with that error
  instead of a report; under the environment of the tests the same batch is reported with
  an empty failure list.
\<close>

theorem log_level_counterexample:
  "fst (invoke pino_library verbose_env \<lparr>Records = [simple_message]\<rparr> test_context)
     = Inl (Error (js ''default level:verbose must be included in custom levels''))
   \<and> fst (invoke pino_library test_env \<lparr>Records = [simple_message]\<rparr> test_context)
       = Inr \<lparr>batchItemFailures = []\<rparr>"
  by code_simp

text \<open>
  C9, amended. For a library that builds a logger for each of its level names: under any
  two environments whose \<^verbatim>\<open>LOG_LEVEL\<close> is unset, empty or, in any letter case, one of
  these names, an invocation returns a report, and the report and the dispositions are the
  same under both; the other four values may be anything or unset.
\<close>

theorem configuration_noninterference:
  assumes "list_all (\<lambda>name. isl (library name) = False) pino_levels"
    and "logLevel env \<in> set pino_levels"
    and "logLevel env' \<in> set pino_levels"
  shows "fst (invoke library env event ctx) = fst (invoke library env' event ctx)
       \<and> dispositions (invoke library env event ctx) = dispositions (invoke library env' event ctx)
       \<and> (\<exists>response. fst (invoke library env event ctx) = Inr response)"
proof -
  have loads: "\<exists>lg. module_logger library e = Inr lg"
    if "logLevel e \<in> set pino_levels" for e
  proof -
    from assms(1) that have "isl (library (logLevel e)) = False"
      by (simp add: list_all_iff)
    then show ?thesis
      by (cases "library (logLevel e)") (simp_all add: module_logger_def)
  qed
  from loads [OF assms(2)] obtain lg where lg: "module_logger library env = Inr lg" ..
  from loads [OF assms(3)] obtain lg' where lg': "module_logger library env' = Inr lg'" ..
  have "fst (invoke library env event ctx) = fst (invoke library env' event ctx)"
    by (simp add: invoke_def lg lg' handler_eq)
  moreover have "dispositions (invoke library env event ctx)
      = dispositions (invoke library env' event ctx)"
    by (simp add: invoke_def lg lg' dispositions_handler)
  moreover have "\<exists>response. fst (invoke library env event ctx) = Inr response"
    by (simp add: invoke_def lg handler_eq)
  ultimately show ?thesis by blast
qed

theorem configuration_noninterference_witness:
  "list_all (\<lambda>name. isl (pino_library name) = False) pino_levels
   \<and> logLevel upper_case_env = js ''error''
   \<and> logLevel upper_case_env \<in> set pino_levels
   \<and> logLevel no_env \<in> set pino_levels
   \<and> fst (invoke pino_library upper_case_env \<lparr>Records = [message_fail]\<rparr> test_context)
       = fst (invoke pino_library no_env \<lparr>Records = [message_fail]\<rparr> test_context)
   \<and> dispositions (invoke pino_library upper_case_env \<lparr>Records = [message_fail]\<rparr> test_context)
       = dispositions (invoke pino_library no_env \<lparr>Records = [message_fail]\<rparr> test_context)
   \<and> (\<exists>response.
         fst (invoke pino_library upper_case_env \<lparr>Records = [message_fail]\<rparr> test_context)
           = Inr response)"
proof -
  have h1: "list_all (\<lambda>name. isl (pino_library name) = False) pino_levels"
    by code_simp
  have h2: "logLevel upper_case_env \<in> set pino_levels"
    by code_simp
  have h3: "logLevel no_env \<in> set pino_levels"
    by code_simp
  have l: "logLevel upper_case_env = js ''error''"
    by code_simp
  from configuration_noninterference
    [OF h1 h2 h3, of "\<lparr>Records = [message_fail]\<rparr>" test_context]
  show ?thesis using h1 h2 h3 l by blast
qed

text \<open>
  C10. Two batches whose records agree, position by position, on messageId and body get
  the same response and the same dispositions, whatever their receipt handles, delivery
  attributes and other metadata are.
\<close>

theorem metadata_independence:
  assumes "map (\<lambda>r. (messageId r, body r)) (Records event)
         = map (\<lambda>r. (messageId r, body r)) (Records event')"
  shows "fst (handler lgr env event ctx log) = fst (handler lgr env event' ctx log)
       \<and> dispositions (handler lgr env event ctx []) = dispositions (handler lgr env event' ctx [])"
proof -
  let ?key = "\<lambda>r. (messageId r, body r)"
  have f: "map (\<lambda>r. \<lparr>itemIdentifier = messageId r\<rparr>) (filter failing rs)
      = map (\<lambda>p. \<lparr>itemIdentifier = fst p\<rparr>) (filter (\<lambda>p. body_fails (snd p)) (map ?key rs))"
    for rs by (induction rs) (simp_all add: failing_body)
  have d: "map (\<lambda>r. (messageId r, if failing r then Failure else Success)) rs
      = map (\<lambda>p. (fst p, if body_fails (snd p) then Failure else Success)) (map ?key rs)"
    for rs by (induction rs) (simp_all add: failing_body)
  have "fst (handler lgr env event ctx log) = fst (handler lgr env event' ctx log)"
    unfolding handler_eq fst_conv f assms ..
  moreover have "dispositions (handler lgr env event ctx []) = dispositions (handler lgr env event' ctx [])"
    unfolding dispositions_handler d assms ..
  ultimately show ?thesis ..
qed

theorem metadata_independence_witness:
  "map (\<lambda>r. (messageId r, body r))
      (Records \<lparr>Records = [test_record ''message-fail'' ''receipt-2'' (js ''{\"shouldFail\":true}'')]\<rparr>)
     = map (\<lambda>r. (messageId r, body r))
      (Records \<lparr>Records = [test_record ''message-fail'' ''receipt-9'' (js ''{\"shouldFail\":true}'')]\<rparr>)
   \<and> test_record ''message-fail'' ''receipt-2'' (js ''{\"shouldFail\":true}'')
       \<noteq> test_record ''message-fail'' ''receipt-9'' (js ''{\"shouldFail\":true}'')
   \<and> fst (handler root_logger test_env
         \<lparr>Records = [test_record ''message-fail'' ''receipt-2'' (js ''{\"shouldFail\":true}'')]\<rparr>
         test_context [])
       = fst (handler root_logger test_env
         \<lparr>Records = [test_record ''message-fail'' ''receipt-9'' (js ''{\"shouldFail\":true}'')]\<rparr>
         test_context [])
   \<and> dispositions (handler root_logger test_env
         \<lparr>Records = [test_record ''message-fail'' ''receipt-2'' (js ''{\"shouldFail\":true}'')]\<rparr>
         test_context [])
       = dispositions (handler root_logger test_env
         \<lparr>Records = [test_record ''message-fail'' ''receipt-9'' (js ''{\"shouldFail\":true}'')]\<rparr>
         test_context [])"
proof -
  have h: "map (\<lambda>r. (messageId r, body r))
      (Records \<lparr>Records = [test_record ''message-fail'' ''receipt-2'' (js ''{\"shouldFail\":true}'')]\<rparr>)
     = map (\<lambda>r. (messageId r, body r))
      (Records \<lparr>Records = [test_record ''message-fail'' ''receipt-9'' (js ''{\"shouldFail\":true}'')]\<rparr>)"
    by (simp add: test_record_def)
  have n: "test_record ''message-fail'' ''receipt-2'' (js ''{\"shouldFail\":true}'')
       \<noteq> test_record ''message-fail'' ''receipt-9'' (js ''{\"shouldFail\":true}'')"
    by code_simp
  from h n metadata_independence [OF h, of root_logger test_env test_context "[]"] show ?thesis by blast
qed

section \<open>The repository's tests, and two facts about the model\<close>

text \<open>
  The expectations of the repository's tests of the handler hold of the model: a simple
  message, a notification-wrapped message and a batch of three succeed; a flagged message
  and a body that is not JSON are reported; of a batch with one flagged message only that
  one is reported; and an environment without values changes nothing.
\<close>

theorem test_simple_message:
  "fst (handler root_logger test_env \<lparr>Records = [simple_message]\<rparr> test_context [])
     = Inr \<lparr>batchItemFailures = []\<rparr>"
  by code_simp

theorem test_sns_wrapped_message:
  "fst (handler root_logger test_env \<lparr>Records = [sns_wrapped_message]\<rparr> test_context [])
     = Inr \<lparr>batchItemFailures = []\<rparr>
   \<and> map_sum id (\<lambda>messageBody. unwrap messageBody) (JSON_parse (body sns_wrapped_message))
       = Inr (Inr (JObject [(js ''test'', JString (js ''Hello from SNS'')),
                            (js ''data'', JString (js ''SNS wrapped data''))]))"
  by code_simp

theorem test_batch_messages:
  "fst (handler root_logger test_env \<lparr>Records = batch_messages\<rparr> test_context [])
     = Inr \<lparr>batchItemFailures = []\<rparr>"
  by code_simp

theorem test_should_fail_flag:
  "fst (handler root_logger test_env \<lparr>Records = [test_message_fail]\<rparr> test_context [])
     = Inr \<lparr>batchItemFailures = [\<lparr>itemIdentifier = js ''test-message-fail''\<rparr>]\<rparr>"
  by code_simp

theorem test_partial_batch_failure:
  "fst (handler root_logger test_env
          \<lparr>Records = [message_success_1, message_fail, message_success_2]\<rparr> test_context [])
     = Inr \<lparr>batchItemFailures = [\<lparr>itemIdentifier = js ''message-fail''\<rparr>]\<rparr>"
  by code_simp

theorem test_invalid_json:
  "fst (handler root_logger test_env \<lparr>Records = [invalid_json_message]\<rparr> test_context [])
     = Inr \<lparr>batchItemFailures = [\<lparr>itemIdentifier = js ''invalid-json-message''\<rparr>]\<rparr>"
  by code_simp

theorem test_missing_environment:
  "fst (handler root_logger no_env \<lparr>Records = [simple_message]\<rparr> test_context [])
     = Inr \<lparr>batchItemFailures = []\<rparr>"
  by code_simp

text \<open>
  A number inside a Message value is written back from its double, not from the digits of
  the text: \<^verbatim>\<open>9007199254740993\<close> is not a double and becomes its neighbour.
\<close>

theorem number_in_envelope:
  "map_sum id (\<lambda>messageBody. unwrap messageBody) (JSON_parse (body number_envelope_message))
     = Inr (Inr (JObject [(js ''k'', JString (js '',9007199254740992,''))]))
   \<and> fst (handler root_logger test_env \<lparr>Records = [number_envelope_message]\<rparr> test_context [])
       = Inr \<lparr>batchItemFailures = []\<rparr>"
  by code_simp

text \<open>
  The failure list is empty exactly when every message of the batch is processable: the
  condition of the amended C4 cannot be weakened.
\<close>

theorem empty_failures_iff:
  "fst (handler lgr env event ctx log) = Inr \<lparr>batchItemFailures = []\<rparr>
     \<longleftrightarrow> list_all processable (Records event)"
  by (simp add: handler_eq failing_processable filter_empty_conv list_all_iff)

text \<open>
  \<open>JSON_parse\<close> reads back the text \<open>quoted\<close> writes for a string without control
  characters.
\<close>

lemma lex_string_quoted:
  assumes "list_all (\<lambda>c. 0x20 \<le> c) s"
  shows "lex_string acc
           (concat (map (\<lambda>c. if c = 0x22 \<or> c = 0x5C then [0x5C, c] else [c]) s) @ 0x22 # rest)
         = Some (rev acc @ s, rest)"
  using assms
proof (induction s arbitrary: acc)
  case Nil
  then show ?case by simp
next
  case (Cons c s)
  then have ge: "\<not> c < 0x20"
    and ih: "\<And>acc. lex_string acc
        (concat (map (\<lambda>c. if c = 0x22 \<or> c = 0x5C then [0x5C, c] else [c]) s) @ 0x22 # rest)
      = Some (rev acc @ s, rest)"
    by (auto simp: not_less)
  show ?case
    by (simp add: ge ih escape_char_def)
qed

theorem JSON_parse_quoted:
  assumes "list_all (\<lambda>c. 0x20 \<le> c) s"
  shows "JSON_parse (quoted s) = Inr (JString s)"
  using lex_string_quoted [OF assms, of "[]" "[]"]
  by (simp add: JSON_parse_def quoted_def)

theorem JSON_parse_quoted_witness:
  "list_all (\<lambda>c. 0x20 \<le> c) (js ''{\"test\":\"hi\"}'')
   \<and> JSON_parse (quoted (js ''{\"test\":\"hi\"}'')) = Inr (JString (js ''{\"test\":\"hi\"}''))"
proof -
  have h: "list_all (\<lambda>c. 0x20 \<le> c) (js ''{\"test\":\"hi\"}'')"
    by code_simp
  from h JSON_parse_quoted [OF h] show ?thesis by (rule conjI)
qed

end
